theory Spec2Isabelle
  imports Main "HOL-Library.Char_ord" "HOL-Library.List_Lexorder"
begin

section \<open>Data model\<close>

text \<open>
  The extractor reads three kinds of objects of the messaging library: dialogs, the
  entities behind them, and folder definitions (dialog filters). The source reads them
  through plain attribute access and through \<^verbatim>\<open>getattr(obj, 'attr', default)\<close>, which
  yields the default exactly when the object has no such attribute. An attribute that an
  object may lack is therefore an \<open>option\<close> field: \<open>None\<close> says the attribute is absent.
  Reading an absent attribute by plain access raises \<^verbatim>\<open>AttributeError\<close>.

  A \<^verbatim>\<open>str\<close> is a \<open>string\<close> (one \<open>char\<close> per code unit, compared lexicographically as
  Python compares \<^verbatim>\<open>str\<close>). The title and the first name of an entity, when the entity has
  the attribute, hold a \<^verbatim>\<open>str\<close> or Python's \<^verbatim>\<open>None\<close> (the first name of a deleted
  account is \<^verbatim>\<open>None\<close>): a \<open>py_name\<close>, with \<open>None\<close> for Python's \<^verbatim>\<open>None\<close>. So
  \<open>title e = None\<close> says the entity has no title attribute, \<open>title e = Some None\<close> that it
  has one holding \<^verbatim>\<open>None\<close>, \<open>title e = Some (Some s)\<close> that it holds the text \<open>s\<close>.

  The dialogs the library hands out have a name, an identifier, the three type flags, an
  unread count, the archived flag and the entity. The matcher also reads the attributes
  \<^verbatim>\<open>muted\<close> and \<^verbatim>\<open>unread_mark\<close> by plain access; a dialog object need not have them
  (those of \<^verbatim>\<open>client.get_dialogs()\<close> have neither), so they are \<open>option\<close> fields.
\<close>

type_synonym py_name = "string option"

datatype py_error = IndexError | AttributeError | TypeError

definition getattr :: "'a option \<Rightarrow> 'a \<Rightarrow> 'a" where
  "getattr attr dflt = (case attr of Some v \<Rightarrow> v | None \<Rightarrow> dflt)"

record entity =
  ent_id :: int
  title :: "py_name option"
  first_name :: "py_name option"
  contact :: "bool option"
  bot_attr :: "bool option"

record dialog =
  dialog_id :: int
  name :: string
  is_group :: bool
  is_channel :: bool
  is_user :: bool
  muted :: "bool option"
  unread_count :: int
  unread_mark :: "bool option"
  archived :: bool
  entity :: entity

datatype peer = PeerUser int | PeerChat int | PeerChannel int

record dialog_filter =
  folder_id :: int
  title_text :: string
  emoticon :: "string option"
  pinned_peers :: "peer list"
  include_peers :: "peer list"
  exclude_peers :: "peer list"
  contacts :: bool
  non_contacts :: bool
  groups :: bool
  broadcasts :: bool
  bots :: bool
  exclude_muted :: bool
  exclude_read :: bool
  exclude_archived :: bool

section \<open>Dialog classifier\<close>

text \<open>
  \<^verbatim>\<open>_get_chat_type_string\<close>: three early returns in source order, then the default.
\<close>

definition get_chat_type_string :: "dialog \<Rightarrow> string" where
  "get_chat_type_string dialog =
     (if is_group dialog then ''Group''
      else if is_channel dialog then ''Channel''
      else if is_user dialog then
        (if getattr (bot_attr (entity dialog)) False then ''Bot'' else ''Personal'')
      else ''Unknown'')"

text \<open>
  The classifier as the specification words it: a category out of five, found in strict
  precedence order, and the string that names each category.
\<close>

datatype chat_type = Personal | Group | Channel | Bot | Unknown

fun chat_type_name :: "chat_type \<Rightarrow> string" where
  "chat_type_name Personal = ''Personal''"
| "chat_type_name Group = ''Group''"
| "chat_type_name Channel = ''Channel''"
| "chat_type_name Bot = ''Bot''"
| "chat_type_name Unknown = ''Unknown''"

definition classify_spec :: "dialog \<Rightarrow> chat_type" where
  "classify_spec d =
     (case (is_group d, is_channel d, is_user d, bot_attr (entity d) = Some True) of
        (True, _, _, _) \<Rightarrow> Group
      | (False, True, _, _) \<Rightarrow> Channel
      | (False, False, True, True) \<Rightarrow> Bot
      | (False, False, True, False) \<Rightarrow> Personal
      | (False, False, False, _) \<Rightarrow> Unknown)"

section \<open>Folder rule matcher\<close>

text \<open>
  \<^verbatim>\<open>_get_rule_based_chat_names\<close>. The condition of the \<^verbatim>\<open>continue\<close> statement and the
  condition of the \<^verbatim>\<open>append\<close> are named; the loop carries \<^verbatim>\<open>matching_names\<close>.

  The condition of the \<^verbatim>\<open>continue\<close> is evaluated left to right with Python's
  short-circuit: \<^verbatim>\<open>dialog.muted\<close> is read only when \<open>exclude_muted\<close> is set, and
  \<^verbatim>\<open>dialog.unread_mark\<close> only when the first disjunct is false, \<open>exclude_read\<close> is set and the
  unread count is 0. Reading an attribute the dialog does not have raises
  \<^verbatim>\<open>AttributeError\<close>, which ends the loop and the function.
\<close>

definition rule_exclusion :: "dialog_filter \<Rightarrow> dialog \<Rightarrow> py_error + bool" where
  "rule_exclusion folder dialog =
     (if exclude_muted folder \<and> muted dialog = None then Inl AttributeError
      else if exclude_muted folder \<and> muted dialog = Some True then Inr True
      else if exclude_read folder \<and> unread_count dialog = 0 \<and> unread_mark dialog = None
        then Inl AttributeError
      else if exclude_read folder \<and> unread_count dialog = 0 \<and> unread_mark dialog = Some False
        then Inr True
      else Inr (exclude_archived folder \<and> archived dialog))"

definition rule_inclusion :: "dialog_filter \<Rightarrow> dialog \<Rightarrow> bool" where
  "rule_inclusion folder dialog =
     (let is_contact = getattr (contact (entity dialog)) False;
          is_bot = getattr (bot_attr (entity dialog)) False;
          is_personal_non_contact = (is_user dialog \<and> \<not> is_contact \<and> \<not> is_bot)
      in (contacts folder \<and> is_contact)
         \<or> (groups folder \<and> is_group dialog)
         \<or> (broadcasts folder \<and> is_channel dialog)
         \<or> (bots folder \<and> is_bot)
         \<or> (non_contacts folder \<and> is_personal_non_contact))"

fun rule_loop :: "dialog_filter \<Rightarrow> dialog list \<Rightarrow> string list \<Rightarrow> py_error + string list" where
  "rule_loop folder [] matching_names = Inr matching_names"
| "rule_loop folder (dialog # rest) matching_names =
     (case rule_exclusion folder dialog of
        Inl e \<Rightarrow> Inl e
      | Inr skip \<Rightarrow>
          (if skip then rule_loop folder rest matching_names
           else if rule_inclusion folder dialog
             then rule_loop folder rest (matching_names @ [name dialog])
             else rule_loop folder rest matching_names))"

definition get_rule_based_chat_names ::
  "dialog_filter \<Rightarrow> dialog list \<Rightarrow> py_error + string list" where
  "get_rule_based_chat_names folder all_dialogs = rule_loop folder all_dialogs []"

section \<open>Peer name resolver\<close>

text \<open>
  A peer carries one identifier, under an attribute named after its kind. The functions
  below say which attribute each kind of peer has.
\<close>

fun channel_id :: "peer \<Rightarrow> int option" where
  "channel_id (PeerChannel i) = Some i"
| "channel_id (PeerUser i) = None"
| "channel_id (PeerChat i) = None"

fun user_id :: "peer \<Rightarrow> int option" where
  "user_id (PeerUser i) = Some i"
| "user_id (PeerChannel i) = None"
| "user_id (PeerChat i) = None"

fun chat_id :: "peer \<Rightarrow> int option" where
  "chat_id (PeerChat i) = Some i"
| "chat_id (PeerUser i) = None"
| "chat_id (PeerChannel i) = None"

text \<open>Python's \<^verbatim>\<open>str\<close> of an integer, as an f-string renders it: decimal digits, a minus sign first when negative.\<close>

definition digit_char :: "nat \<Rightarrow> char" where
  "digit_char n = ''0123456789'' ! (n mod 10)"

function str_nat :: "nat \<Rightarrow> string" where
  "str_nat n = (if n < 10 then [digit_char n] else str_nat (n div 10) @ [digit_char n])"
  by pat_completeness auto
termination
  by (relation "measure (\<lambda>n. n)") auto

declare str_nat.simps [simp del]

definition str_int :: "int \<Rightarrow> string" where
  "str_int i = (if i < 0 then CHR ''-'' # str_nat (nat (- i)) else str_nat (nat i))"

text \<open>
  The value the placeholder formats is an identifier or the text \<^verbatim>\<open>'N/A'\<close>; \<open>format_value\<close> is what
  the f-string does with either.
\<close>

datatype py_value = PyInt int | PyStr string

fun format_value :: "py_value \<Rightarrow> string" where
  "format_value (PyInt i) = str_int i"
| "format_value (PyStr s) = s"

definition peer_id :: "peer \<Rightarrow> py_value" where
  "peer_id peer =
     getattr (map_option PyInt (channel_id peer))
       (getattr (map_option PyInt (user_id peer)) (PyStr ''N/A''))"

definition placeholder :: "peer \<Rightarrow> string" where
  "placeholder peer =
     ''Unknown/Inaccessible Entity (ID: '' @ format_value (peer_id peer) @ '')''"

text \<open>
  The name of a resolved entity: \<^verbatim>\<open>getattr\<close> yields whatever the attribute holds, also
  \<^verbatim>\<open>None\<close>, and its default only when the attribute is absent.
\<close>

definition entity_name :: "entity \<Rightarrow> py_name" where
  "entity_name res =
     getattr (title res) (getattr (first_name res) (Some (''User '' @ str_int (ent_id res))))"

text \<open>
  The client is the outside world. What a resolution request returns may depend on the
  peer and on how many requests went before it; the client keeps the list of requests
  issued so far. \<open>gather\<close> issues one request per peer and returns the outcomes in the
  order of the peers, exceptions included as values
  (\<^verbatim>\<open>asyncio.gather(*tasks, return_exceptions=True)\<close>).
\<close>

datatype exn = Exception string

record client =
  answers :: "nat \<Rightarrow> peer \<Rightarrow> exn + entity"
  requests :: "peer list"

definition get_entity :: "client \<Rightarrow> peer \<Rightarrow> (exn + entity) \<times> client" where
  "get_entity c p = (answers c (length (requests c)) p, c\<lparr>requests := requests c @ [p]\<rparr>)"

fun gather :: "client \<Rightarrow> peer list \<Rightarrow> (exn + entity) list \<times> client" where
  "gather c [] = ([], c)"
| "gather c (p # ps) =
     (case get_entity c p of (r, c1) \<Rightarrow>
        (case gather c1 ps of (rs, c2) \<Rightarrow> (r # rs, c2)))"

text \<open>
  The loop \<^verbatim>\<open>for i, res in enumerate(results)\<close>: \<open>i\<close> counts the outcomes, and the failing
  branch reads \<^verbatim>\<open>peers[i]\<close>, which raises when \<open>i\<close> is out of range.
\<close>

fun names_loop ::
  "peer list \<Rightarrow> nat \<Rightarrow> (exn + entity) list \<Rightarrow> py_name list \<Rightarrow> py_error + py_name list" where
  "names_loop peers i [] names = Inr names"
| "names_loop peers i (res # results) names =
     (case res of
        Inl e \<Rightarrow>
          (if i < length peers
           then names_loop peers (Suc i) results (names @ [Some (placeholder (peers ! i))])
           else Inl IndexError)
      | Inr ent \<Rightarrow> names_loop peers (Suc i) results (names @ [entity_name ent]))"

definition get_names_for_peers ::
  "client \<Rightarrow> peer list \<Rightarrow> (py_error + py_name list) \<times> client" where
  "get_names_for_peers c peers =
     (if peers = [] then (Inr [], c)
      else (case gather c peers of (results, c') \<Rightarrow> (names_loop peers 0 results [], c')))"

section \<open>Folder membership resolver\<close>

text \<open>
  The body of the loop over the selected folders in \<^verbatim>\<open>_extract_folders\<close>, and the record it
  appends. A Python set is kept as a duplicate-free list, in one of the orders its
  iteration may have.

  \<open>py_sorted\<close> is \<^verbatim>\<open>sorted\<close> on a list of names. Sorting two or more elements compares
  every element with another one, and comparing \<^verbatim>\<open>None\<close> with anything raises
  \<^verbatim>\<open>TypeError\<close>; a list of at most one element is returned without a comparison.
\<close>

record folder_row =
  folder_name :: string
  row_folder_id :: int
  row_emoticon :: string
  pinned_chats :: "py_name list"
  included_chats :: "py_name list"
  excluded_chats :: "py_name list"
  rule_contacts :: bool
  rule_non_contacts :: bool
  rule_groups :: bool
  rule_channels :: bool
  rule_bots :: bool
  rule_exclude_muted :: bool
  rule_exclude_read :: bool
  rule_exclude_archived :: bool

definition py_sorted :: "py_name list \<Rightarrow> py_error + py_name list" where
  "py_sorted names =
     (if None \<in> set names
      then (if 2 \<le> length names then Inl TypeError else Inr names)
      else Inr (map Some (sort (map the names))))"

definition combined_included_set :: "py_name list \<Rightarrow> string list \<Rightarrow> py_name list" where
  "combined_included_set explicitly_included_names rule_based_names =
     remdups (explicitly_included_names @ map Some rule_based_names)"

definition final_included_names :: "py_name list \<Rightarrow> py_name list \<Rightarrow> py_error + py_name list" where
  "final_included_names combined explicitly_excluded_names =
     py_sorted (filter (\<lambda>name. name \<notin> set explicitly_excluded_names) combined)"

definition emoticon_or_none :: "string option \<Rightarrow> string" where
  "emoticon_or_none e = (case e of None \<Rightarrow> ''None'' | Some s \<Rightarrow> (if s = [] then ''None'' else s))"

definition make_row ::
  "dialog_filter \<Rightarrow> py_name list \<Rightarrow> py_name list \<Rightarrow> py_name list \<Rightarrow> folder_row" where
  "make_row folder pinned_names final_names explicitly_excluded_names =
     \<lparr> folder_name = title_text folder, row_folder_id = folder_id folder,
       row_emoticon = emoticon_or_none (emoticon folder),
       pinned_chats = pinned_names,
       included_chats = final_names,
       excluded_chats = explicitly_excluded_names,
       rule_contacts = contacts folder, rule_non_contacts = non_contacts folder,
       rule_groups = groups folder, rule_channels = broadcasts folder, rule_bots = bots folder,
       rule_exclude_muted = exclude_muted folder, rule_exclude_read = exclude_read folder,
       rule_exclude_archived = exclude_archived folder \<rparr>"

text \<open>
  An exception of the matcher or of \<^verbatim>\<open>sorted\<close> leaves the loop body before the record is
  appended; the requests of the three resolutions have been issued by then.
\<close>

definition process_folder ::
  "client \<Rightarrow> dialog list \<Rightarrow> dialog_filter \<Rightarrow> (py_error + folder_row) \<times> client" where
  "process_folder c all_dialogs folder =
     (case get_names_for_peers c (pinned_peers folder) of
        (Inl e, c1) \<Rightarrow> (Inl e, c1)
      | (Inr pinned_names, c1) \<Rightarrow>
     (case get_names_for_peers c1 (include_peers folder) of
        (Inl e, c2) \<Rightarrow> (Inl e, c2)
      | (Inr explicitly_included_names, c2) \<Rightarrow>
     (case get_names_for_peers c2 (exclude_peers folder) of
        (Inl e, c3) \<Rightarrow> (Inl e, c3)
      | (Inr explicitly_excluded_names, c3) \<Rightarrow>
     (case get_rule_based_chat_names folder all_dialogs of
        Inl e \<Rightarrow> (Inl e, c3)
      | Inr rule_based_names \<Rightarrow>
     (case final_included_names
             (combined_included_set explicitly_included_names rule_based_names)
             explicitly_excluded_names of
        Inl e \<Rightarrow> (Inl e, c3)
      | Inr final_names \<Rightarrow>
          (Inr (make_row folder pinned_names final_names explicitly_excluded_names), c3))))))"

fun extract_folders_loop ::
  "client \<Rightarrow> dialog list \<Rightarrow> dialog_filter list \<Rightarrow> folder_row list
     \<Rightarrow> (py_error + folder_row list) \<times> client" where
  "extract_folders_loop c all_dialogs [] extracted_data = (Inr extracted_data, c)"
| "extract_folders_loop c all_dialogs (folder # rest) extracted_data =
     (case process_folder c all_dialogs folder of
        (Inl e, c') \<Rightarrow> (Inl e, c')
      | (Inr row, c') \<Rightarrow> extract_folders_loop c' all_dialogs rest (extracted_data @ [row]))"

section \<open>Auxiliary notions for the statements\<close>

text \<open>
  A dialog contributes to the rule-based names when the loop reaches the \<^verbatim>\<open>append\<close> for
  it: the condition of the \<^verbatim>\<open>continue\<close> is evaluated without an exception and is false,
  and the inclusion condition is true.
\<close>

definition rule_match :: "dialog_filter \<Rightarrow> dialog \<Rightarrow> bool" where
  "rule_match folder dialog =
     (rule_exclusion folder dialog = Inr False \<and> rule_inclusion folder dialog)"

text \<open>The name the resolver's loop appends for a peer, given the outcome of its request.\<close>

definition name_of_result :: "peer \<Rightarrow> exn + entity \<Rightarrow> py_name" where
  "name_of_result p r = (case r of Inl e \<Rightarrow> Some (placeholder p) | Inr ent \<Rightarrow> entity_name ent)"

subsection \<open>Sample inputs\<close>

definition bare_entity :: entity where
  "bare_entity = \<lparr> ent_id = 5, title = None, first_name = None, contact = None, bot_attr = None \<rparr>"

definition plain_dialog :: dialog where
  "plain_dialog =
     \<lparr> dialog_id = 100, name = ''Team Alpha'', is_group = False, is_channel = False,
       is_user = False, muted = None, unread_count = 3, unread_mark = None,
       archived = False, entity = bare_entity \<rparr>"

definition plain_folder :: dialog_filter where
  "plain_folder =
     \<lparr> folder_id = 2, title_text = ''Work'', emoticon = None,
       pinned_peers = [], include_peers = [], exclude_peers = [],
       contacts = False, non_contacts = False, groups = False, broadcasts = False,
       bots = False, exclude_muted = False, exclude_read = False, exclude_archived = False \<rparr>"

text \<open>
  A client every request of which fails, and one that knows a channel, a chat, a user
  with a first name, a user object with neither title nor first name, and a deleted
  account (user 6), whose first name is \<^verbatim>\<open>None\<close>.
\<close>

definition failing_client :: client where
  "failing_client = \<lparr> answers = (\<lambda>n p. Inl (Exception ''not found'')), requests = [] \<rparr>"

fun directory :: "peer \<Rightarrow> exn + entity" where
  "directory (PeerChannel i) = Inr (bare_entity\<lparr>ent_id := i, title := Some (Some ''News'')\<rparr>)"
| "directory (PeerUser i) =
     (if i = 7 then Inr (bare_entity\<lparr>ent_id := i, first_name := Some (Some ''Ada'')\<rparr>)
      else if i = 8 then Inr (bare_entity\<lparr>ent_id := i\<rparr>)
      else if i = 6 then Inr (bare_entity\<lparr>ent_id := i, first_name := Some None\<rparr>)
      else Inl (Exception ''not found''))"
| "directory (PeerChat i) =
     (if i = 42 then Inr (bare_entity\<lparr>ent_id := i, title := Some (Some ''Team Alpha'')\<rparr>)
      else Inl (Exception ''not found''))"

definition directory_client :: client where
  "directory_client = \<lparr> answers = (\<lambda>n. directory), requests = [] \<rparr>"

text \<open>
  Three dialogs (two groups and a channel) and a folder with the groups rule, two pinned
  peers, three explicitly included peers and two explicitly excluded ones.
\<close>

definition sample_dialogs :: "dialog list" where
  "sample_dialogs =
     [plain_dialog\<lparr>is_group := True\<rparr>,
      plain_dialog\<lparr>name := ''Team Beta'', is_group := True, archived := True\<rparr>,
      plain_dialog\<lparr>name := ''News'', is_channel := True\<rparr>]"

definition sample_folder :: dialog_filter where
  "sample_folder =
     plain_folder\<lparr>groups := True, pinned_peers := [PeerChannel 3, PeerUser 7],
       include_peers := [PeerUser 7, PeerUser 9, PeerUser 8],
       exclude_peers := [PeerChat 42, PeerUser 7]\<rparr>"

lemmas sample_defs = sample_dialogs_def sample_folder_def plain_dialog_def plain_folder_def
  bare_entity_def directory_client_def failing_client_def

lemmas run_defs = process_folder_def get_names_for_peers_def get_entity_def
  get_rule_based_chat_names_def rule_exclusion_def rule_inclusion_def getattr_def
  combined_included_set_def final_included_names_def py_sorted_def make_row_def
  emoticon_or_none_def
  placeholder_def peer_id_def entity_name_def str_int_def str_nat.simps digit_char_def

section \<open>Properties of the loops\<close>

text \<open>
  The matcher raises exactly when the condition of the \<^verbatim>\<open>continue\<close> raises for a dialog
  of the list; otherwise it returns the names of the matching dialogs, in dialog order.
\<close>

lemma rule_exclusion_error: "rule_exclusion f d = Inl e \<Longrightarrow> e = AttributeError"
  by (auto simp: rule_exclusion_def split: if_splits)

lemma rule_loop_acc:
  "rule_loop folder ds acc =
     (if \<exists>d\<in>set ds. isl (rule_exclusion folder d) then Inl AttributeError
      else Inr (acc @ map name (filter (rule_match folder) ds)))"
proof (induction ds arbitrary: acc)
  case Nil
  then show ?case by simp
next
  case (Cons d ds)
  show ?case
  proof (cases "rule_exclusion folder d")
    case (Inl e)
    then have "e = AttributeError" by (rule rule_exclusion_error)
    with Inl show ?thesis by simp
  next
    case (Inr skip)
    then show ?thesis
      by (cases skip; cases "rule_inclusion folder d")
         (simp_all add: Cons.IH rule_match_def [of folder d])
  qed
qed

lemma rule_names_filter:
  "get_rule_based_chat_names folder ds =
     (if \<exists>d\<in>set ds. isl (rule_exclusion folder d) then Inl AttributeError
      else Inr (map name (filter (rule_match folder) ds)))"
  by (simp add: get_rule_based_chat_names_def rule_loop_acc)

lemma rule_names_Inr:
  "get_rule_based_chat_names folder ds = Inr names \<Longrightarrow>
   names = map name (filter (rule_match folder) ds)"
  by (simp add: rule_names_filter split: if_splits)

lemma rule_names_toggles_off:
  "\<not> exclude_muted f \<Longrightarrow> \<not> exclude_read f \<Longrightarrow>
   get_rule_based_chat_names f ds = Inr (map name (filter (rule_match f) ds))"
  by (simp add: rule_names_filter rule_exclusion_def)

lemma rule_names_skip:
  "\<not> rule_match f d \<Longrightarrow> get_rule_based_chat_names f (xs @ d # ys) = Inr names \<Longrightarrow>
   get_rule_based_chat_names f (xs @ ys) = Inr names"
  by (simp add: rule_names_filter split: if_splits)

lemma rule_names_mem:
  "get_rule_based_chat_names f ds = Inr names \<Longrightarrow>
   n \<in> set names \<longleftrightarrow> (\<exists>d\<in>set ds. name d = n \<and> rule_match f d)"
  by (auto simp: rule_names_filter split: if_splits)

text \<open>The resolver: one outcome per peer, in order, and one request per peer.\<close>

lemma gather_length: "length (fst (gather c ps)) = length ps"
  by (induction ps arbitrary: c) (simp_all add: get_entity_def case_prod_beta)

lemma gather_client: "snd (gather c ps) = c\<lparr>requests := requests c @ ps\<rparr>"
  by (induction ps arbitrary: c) (simp_all add: get_entity_def case_prod_beta)

lemma gather_nth:
  "i < length ps \<Longrightarrow> fst (gather c ps) ! i = answers c (length (requests c) + i) (ps ! i)"
proof (induction ps arbitrary: c i)
  case Nil
  then show ?case by simp
next
  case (Cons p ps)
  show ?case
  proof (cases i)
    case 0
    then show ?thesis by (simp add: get_entity_def case_prod_beta)
  next
    case (Suc j)
    with Cons.prems have "j < length ps" by simp
    from Cons.IH [OF this, of "c\<lparr>requests := requests c @ [p]\<rparr>"] Suc
    show ?thesis by (simp add: get_entity_def case_prod_beta)
  qed
qed

text \<open>The read \<^verbatim>\<open>peers[i]\<close> stays in range, so the loop of the resolver never raises.\<close>

lemma names_loop_acc:
  "i + length results \<le> length peers \<Longrightarrow>
   names_loop peers i results names
     = Inr (names @ map2 name_of_result (drop i peers) results)"
proof (induction results arbitrary: i names)
  case Nil
  then show ?case by simp
next
  case (Cons res results)
  from Cons.prems have lt: "i < length peers" and le: "Suc i + length results \<le> length peers"
    by simp_all
  from lt have dr: "drop i peers = peers ! i # drop (Suc i) peers"
    by (simp add: Cons_nth_drop_Suc)
  show ?case
    using Cons.IH [OF le] lt
    by (cases res) (simp_all add: dr name_of_result_def)
qed

lemma get_names_for_peers_eq:
  "get_names_for_peers c ps
     = (Inr (map2 name_of_result ps (fst (gather c ps))), c\<lparr>requests := requests c @ ps\<rparr>)"
proof (cases "ps = []")
  case True
  then show ?thesis by (simp add: get_names_for_peers_def)
next
  case False
  have "names_loop ps 0 (fst (gather c ps)) []
          = Inr ([] @ map2 name_of_result (drop 0 ps) (fst (gather c ps)))"
    by (rule names_loop_acc) (simp add: gather_length)
  with False show ?thesis
    using gather_client [of c ps]
    by (simp add: get_names_for_peers_def case_prod_beta prod_eq_iff)
qed

lemma resolved_nth:
  assumes "i < length ps"
  shows "map2 name_of_result ps (fst (gather c ps)) ! i
           = name_of_result (ps ! i) (answers c (length (requests c) + i) (ps ! i))"
  using assms by (simp add: gather_length gather_nth)

lemma placeholder_nonempty: "placeholder p \<noteq> []"
  by (simp add: placeholder_def)

lemma count_list_map_filter:
  "count_list (map g (filter P xs)) n = length (filter (\<lambda>x. P x \<and> g x = n) xs)"
  by (induction xs) simp_all

text \<open>What \<^verbatim>\<open>sorted\<close> returns, when it returns.\<close>

lemma map_Some_the: "None \<notin> set xs \<Longrightarrow> map Some (map the xs) = xs"
  by (induction xs) auto

lemma Some_the_image: "None \<notin> S \<Longrightarrow> Some ` the ` S = S"
proof -
  assume "None \<notin> S"
  then have "Some (the x) = x" if "x \<in> S" for x
    using that by (cases x) auto
  then show ?thesis by force
qed

lemma py_sorted_set: "py_sorted xs = Inr ys \<Longrightarrow> set ys = set xs"
proof -
  assume a: "py_sorted xs = Inr ys"
  show ?thesis
  proof (cases "None \<in> set xs")
    case True
    with a show ?thesis by (simp add: py_sorted_def split: if_splits)
  next
    case False
    with a have "ys = map Some (sort (map the xs))" by (simp add: py_sorted_def)
    with False show ?thesis by (simp add: Some_the_image)
  qed
qed

lemma py_sorted_distinct: "py_sorted xs = Inr ys \<Longrightarrow> distinct xs \<Longrightarrow> distinct ys"
proof -
  assume a: "py_sorted xs = Inr ys" and d: "distinct xs"
  show ?thesis
  proof (cases "None \<in> set xs")
    case True
    with a d show ?thesis by (simp add: py_sorted_def split: if_splits)
  next
    case False
    with a have ys: "ys = map Some (sort (map the xs))" by (simp add: py_sorted_def)
    from False have "inj_on the (set xs)"
      by (intro inj_onI) (metis option.exhaust_sel)
    with d have "distinct (map the xs)" by (simp add: distinct_map)
    with ys show ?thesis by (simp add: distinct_map)
  qed
qed

lemma py_sorted_shape:
  "py_sorted xs = Inr ys \<Longrightarrow> (\<exists>strs. ys = map Some strs \<and> sorted strs) \<or> ys = [None]"
proof -
  assume a: "py_sorted xs = Inr ys"
  show ?thesis
  proof (cases "None \<in> set xs")
    case True
    with a have "ys = xs" and "length xs < 2" by (simp_all add: py_sorted_def split: if_splits)
    with True have "ys = [None]"
      by (cases xs) auto
    then show ?thesis by simp
  next
    case False
    with a have "ys = map Some (sort (map the xs))" by (simp add: py_sorted_def)
    then show ?thesis by auto
  qed
qed

lemma py_sorted_returns_iff:
  "(\<exists>ys. py_sorted xs = Inr ys) \<longleftrightarrow> \<not> (None \<in> set xs \<and> 2 \<le> length xs)"
  by (simp add: py_sorted_def)

text \<open>Where the condition is evaluated without an exception and is true, the dialog is skipped.\<close>

lemma exclusion_skips_when_returns:
  assumes "rule_exclusion f d = Inr True"
    and "get_rule_based_chat_names f (xs @ d # ys) = Inr names"
  shows "get_rule_based_chat_names f (xs @ ys) = Inr names"
proof -
  from assms(1) have "\<not> rule_match f d" by (simp add: rule_match_def)
  from this assms(2) show ?thesis by (rule rule_names_skip)
qed

text \<open>
  One folder: the three resolutions never raise; the matcher and \<^verbatim>\<open>sorted\<close> may. The
  requests of the three batches follow one another in the client.
\<close>

lemma process_folder_eq:
  "process_folder c ds f =
     (let c1 = c\<lparr>requests := requests c @ pinned_peers f\<rparr>;
          c2 = c1\<lparr>requests := requests c1 @ include_peers f\<rparr>;
          c3 = c2\<lparr>requests := requests c2 @ exclude_peers f\<rparr>;
          pinned = map2 name_of_result (pinned_peers f) (fst (gather c (pinned_peers f)));
          incl = map2 name_of_result (include_peers f) (fst (gather c1 (include_peers f)));
          excl = map2 name_of_result (exclude_peers f) (fst (gather c2 (exclude_peers f)))
      in (case get_rule_based_chat_names f ds of
            Inl e \<Rightarrow> (Inl e, c3)
          | Inr rule_based \<Rightarrow>
              (case final_included_names (combined_included_set incl rule_based) excl of
                 Inl e \<Rightarrow> (Inl e, c3)
               | Inr final \<Rightarrow> (Inr (make_row f pinned final excl), c3))))"
  by (simp add: process_folder_def get_names_for_peers_eq Let_def)

lemma final_included_set_eq:
  assumes "final_included_names (combined_included_set a b) e = Inr final"
  shows "set final = (set a \<union> Some ` set b) - set e"
proof -
  from assms have "set final = set (filter (\<lambda>n. n \<notin> set e) (combined_included_set a b))"
    unfolding final_included_names_def by (rule py_sorted_set)
  then show ?thesis by (auto simp: combined_included_set_def)
qed

lemma final_included_distinct:
  assumes "final_included_names (combined_included_set a b) e = Inr final"
  shows "distinct final"
proof -
  have "distinct (filter (\<lambda>n. n \<notin> set e) (combined_included_set a b))"
    by (simp add: combined_included_set_def)
  with assms show ?thesis
    unfolding final_included_names_def by (rule py_sorted_distinct)
qed

lemma final_included_shape:
  "final_included_names xs e = Inr final \<Longrightarrow>
   (\<exists>strs. final = map Some strs \<and> sorted strs) \<or> final = [None]"
  unfolding final_included_names_def by (rule py_sorted_shape)

text \<open>What a successful run of the loop body consists of.\<close>

lemma process_folder_Inr:
  assumes "process_folder c ds f = (Inr row, c')"
  obtains rule_based final where
    "get_rule_based_chat_names f ds = Inr rule_based"
    "final_included_names
       (combined_included_set
          (map2 name_of_result (include_peers f)
             (fst (gather (c\<lparr>requests := requests c @ pinned_peers f\<rparr>) (include_peers f))))
          rule_based)
       (map2 name_of_result (exclude_peers f)
          (fst (gather (c\<lparr>requests := requests c @ pinned_peers f @ include_peers f\<rparr>)
                 (exclude_peers f)))) = Inr final"
    "row = make_row f
       (map2 name_of_result (pinned_peers f) (fst (gather c (pinned_peers f))))
       final
       (map2 name_of_result (exclude_peers f)
          (fst (gather (c\<lparr>requests := requests c @ pinned_peers f @ include_peers f\<rparr>)
                 (exclude_peers f))))"
    "c' = c\<lparr>requests := requests c @ pinned_peers f @ include_peers f @ exclude_peers f\<rparr>"
  using assms
  by (auto simp: process_folder_eq Let_def split: sum.splits)

text \<open>
  The order in which the set is iterated does not show in the result: any duplicate-free
  enumeration of the same names gives the same outcome of \<^verbatim>\<open>sorted\<close>.
\<close>

lemma short_list_with:
  assumes "x \<in> set us" and "\<not> 2 \<le> length us"
  shows "us = [x]"
proof -
  from assms(1) obtain y ys where us: "us = y # ys" by (cases us) auto
  with assms(2) have "ys = []" by (cases ys) auto
  with us assms(1) show ?thesis by simp
qed

lemma py_sorted_cong:
  assumes d: "distinct us" "distinct vs" and s: "set us = set vs"
  shows "py_sorted us = py_sorted vs"
proof -
  from d s have len: "length us = length vs"
    by (metis distinct_card)
  show ?thesis
  proof (cases "None \<in> set us")
    case True
    with s have nv: "None \<in> set vs" by simp
    show ?thesis
    proof (cases "2 \<le> length us")
      case True
      with \<open>None \<in> set us\<close> nv len show ?thesis
        by (simp add: py_sorted_def)
    next
      case False
      with True have "us = [None]" by (intro short_list_with)
      moreover from False nv len have "vs = [None]" by (intro short_list_with) simp_all
      ultimately show ?thesis by simp
    qed
  next
    case False
    with s have nv: "None \<notin> set vs" by simp
    from False have "inj_on the (set us)"
      by (intro inj_onI) (metis option.exhaust_sel)
    with d have du: "distinct (map the us)" by (simp add: distinct_map)
    from nv have "inj_on the (set vs)"
      by (intro inj_onI) (metis option.exhaust_sel)
    with d have dv: "distinct (map the vs)" by (simp add: distinct_map)
    from s have "set (map the us) = set (map the vs)" by simp
    with du dv have "sort (map the us) = sort (map the vs)"
      by (intro sorted_distinct_set_unique) simp_all
    with False nv show ?thesis
      by (simp add: py_sorted_def)
  qed
qed

lemma set_iteration_order_irrelevant:
  assumes "distinct xs" and "set xs = set (combined_included_set a b)"
  shows "final_included_names xs e = final_included_names (combined_included_set a b) e"
  unfolding final_included_names_def
proof (rule py_sorted_cong)
  show "distinct (filter (\<lambda>name. name \<notin> set e) xs)"
    using assms(1) by simp
  show "distinct (filter (\<lambda>name. name \<notin> set e) (combined_included_set a b))"
    by (simp add: combined_included_set_def)
  show "set (filter (\<lambda>name. name \<notin> set e) xs)
          = set (filter (\<lambda>name. name \<notin> set e) (combined_included_set a b))"
    using assms(2) by simp
qed

text \<open>
  A record is built at least when neither \<open>exclude_muted\<close> nor \<open>exclude_read\<close> is set and no
  explicitly included name is \<^verbatim>\<open>None\<close>.
\<close>

lemma py_sorted_strings: "None \<notin> set xs \<Longrightarrow> \<exists>ys. py_sorted xs = Inr ys"
  by (simp add: py_sorted_def)

lemma process_folder_returns:
  assumes "\<not> exclude_muted f" and "\<not> exclude_read f"
    and "get_names_for_peers (c\<lparr>requests := requests c @ pinned_peers f\<rparr>) (include_peers f)
           = (Inr incl, c2)"
    and "None \<notin> set incl"
  shows "\<exists>row c'. process_folder c ds f = (Inr row, c')"
proof -
  let ?excl = "map2 name_of_result (exclude_peers f)
          (fst (gather (c\<lparr>requests := requests c @ pinned_peers f @ include_peers f\<rparr>)
                 (exclude_peers f)))"
  let ?rb = "map name (filter (rule_match f) ds)"
  from assms(3) have incl: "incl = map2 name_of_result (include_peers f)
             (fst (gather (c\<lparr>requests := requests c @ pinned_peers f\<rparr>) (include_peers f)))"
    by (simp add: get_names_for_peers_eq)
  from assms(1,2) have rb: "get_rule_based_chat_names f ds = Inr ?rb"
    by (rule rule_names_toggles_off)
  from assms(4) have "None \<notin> set (filter (\<lambda>n. n \<notin> set ?excl) (combined_included_set incl ?rb))"
    by (auto simp: combined_included_set_def)
  then obtain final where "final_included_names (combined_included_set incl ?rb) ?excl = Inr final"
    unfolding final_included_names_def using py_sorted_strings by blast
  with rb incl show ?thesis
    by (simp add: process_folder_eq Let_def)
qed

text \<open>The loop over the selected folders appends one record per folder, in order.\<close>

lemma extract_folders_loop_rows:
  "extract_folders_loop c ds fs acc = (Inr rows, c') \<Longrightarrow>
   \<exists>new. rows = acc @ new \<and> length new = length fs"
proof (induction fs arbitrary: c acc)
  case Nil
  then show ?case by simp
next
  case (Cons f fs)
  from Cons.prems obtain row c1 where step: "process_folder c ds f = (Inr row, c1)"
    and rest: "extract_folders_loop c1 ds fs (acc @ [row]) = (Inr rows, c')"
    by (auto split: prod.splits sum.splits)
  from Cons.IH [OF rest] obtain new where "rows = (acc @ [row]) @ new" and "length new = length fs"
    by blast
  then have "rows = acc @ (row # new) \<and> length (row # new) = length (f # fs)"
    by simp
  then show ?case by blast
qed

text \<open>
  The sample folder, and a folder whose explicitly included peers are a deleted account and
  a user: the name \<^verbatim>\<open>None\<close> beside a text makes \<^verbatim>\<open>sorted\<close> raise; alone it does not.
\<close>

lemma sample_run:
  "fst (process_folder directory_client sample_dialogs sample_folder) =
     Inr (make_row sample_folder [Some ''News'', Some ''Ada'']
            [Some ''Team Beta'', Some ''Unknown/Inaccessible Entity (ID: 9)'', Some ''User 8'']
            [Some ''Team Alpha'', Some ''Ada''])"
  by (simp add: sample_defs run_defs name_of_result_def)

lemma deleted_account_breaks_sorted:
  "fst (get_names_for_peers directory_client [PeerUser 6, PeerUser 7]) = Inr [None, Some ''Ada'']
   \<and> fst (process_folder directory_client sample_dialogs
             (plain_folder\<lparr>include_peers := [PeerUser 6, PeerUser 7]\<rparr>)) = Inl TypeError
   \<and> fst (process_folder directory_client sample_dialogs
             (plain_folder\<lparr>include_peers := [PeerUser 6]\<rparr>))
       = Inr (make_row (plain_folder\<lparr>include_peers := [PeerUser 6]\<rparr>) [] [None] [])"
  by (simp add: sample_defs run_defs)

section \<open>The claims about the folder membership resolver\<close>

text \<open>
  Claim C1. For every folder, dialog list and client for which a record is produced,
  the set of the record's included names is the union of the explicitly included
  resolved names and the rule-based names, minus the explicitly excluded resolved names.
  No excluded name is among the included ones, whether it was explicitly included or
  matched a rule.
\<close>

theorem final_included_set:
  assumes "process_folder c ds f = (Inr row, c')"
  shows "\<exists>pinned c1 incl c2 excl rule_based.
     get_names_for_peers c (pinned_peers f) = (Inr pinned, c1)
   \<and> get_names_for_peers c1 (include_peers f) = (Inr incl, c2)
   \<and> get_names_for_peers c2 (exclude_peers f) = (Inr excl, c')
   \<and> get_rule_based_chat_names f ds = Inr rule_based
   \<and> set (included_chats row) = (set incl \<union> Some ` set rule_based) - set excl
   \<and> set excl \<inter> set (included_chats row) = {}"
proof -
  from assms obtain rule_based final where
    rb: "get_rule_based_chat_names f ds = Inr rule_based"
    and fin: "final_included_names
       (combined_included_set
          (map2 name_of_result (include_peers f)
             (fst (gather (c\<lparr>requests := requests c @ pinned_peers f\<rparr>) (include_peers f))))
          rule_based)
       (map2 name_of_result (exclude_peers f)
          (fst (gather (c\<lparr>requests := requests c @ pinned_peers f @ include_peers f\<rparr>)
                 (exclude_peers f)))) = Inr final"
    and row: "row = make_row f
       (map2 name_of_result (pinned_peers f) (fst (gather c (pinned_peers f))))
       final
       (map2 name_of_result (exclude_peers f)
          (fst (gather (c\<lparr>requests := requests c @ pinned_peers f @ include_peers f\<rparr>)
                 (exclude_peers f))))"
    and c': "c' = c\<lparr>requests := requests c @ pinned_peers f @ include_peers f @ exclude_peers f\<rparr>"
    by (rule process_folder_Inr)
  from row have inc: "included_chats row = final" by (simp add: make_row_def)
  from final_included_set_eq [OF fin] inc rb c' show ?thesis
    by (simp add: get_names_for_peers_eq Int_Diff_disjoint)
qed

text \<open>
  On the sample folder, ''Ada'' is explicitly included and explicitly excluded, and
  ''Team Alpha'' matches the groups rule and is explicitly excluded: neither is included.
\<close>

theorem final_included_set_witness:
  "\<exists>row c'. process_folder directory_client sample_dialogs sample_folder = (Inr row, c')
     \<and> set (included_chats row)
         = {Some ''Team Beta'', Some ''Unknown/Inaccessible Entity (ID: 9)'', Some ''User 8''}
     \<and> Some ''Team Alpha'' \<notin> set (included_chats row)
     \<and> Some ''Ada'' \<notin> set (included_chats row)"
proof -
  obtain row c' where run: "process_folder directory_client sample_dialogs sample_folder = (Inr row, c')"
    using sample_run by (metis fst_conv surj_pair)
  from final_included_set [OF run]
  obtain excl where disj: "set excl \<inter> set (included_chats row) = {}"
    by blast
  from run sample_run have "included_chats row
      = [Some ''Team Beta'', Some ''Unknown/Inaccessible Entity (ID: 9)'', Some ''User 8'']"
    by (simp add: make_row_def)
  with run disj show ?thesis by auto
qed

text \<open>
  Claim C6. For every folder and every dialog list for which a record is produced, also
  a list where several dialogs share a name, the included list of the record has no
  duplicates and is sorted lexicographically: it is a sorted list of texts, or the one
  name \<^verbatim>\<open>None\<close>.
\<close>

theorem final_included_sorted_distinct:
  assumes "process_folder c ds f = (Inr row, c')"
  shows "distinct (included_chats row)
         \<and> ((\<exists>strs. included_chats row = map Some strs \<and> sorted strs \<and> distinct strs)
              \<or> included_chats row = [None])"
proof -
  from assms obtain rule_based final where
    fin: "final_included_names
       (combined_included_set
          (map2 name_of_result (include_peers f)
             (fst (gather (c\<lparr>requests := requests c @ pinned_peers f\<rparr>) (include_peers f))))
          rule_based)
       (map2 name_of_result (exclude_peers f)
          (fst (gather (c\<lparr>requests := requests c @ pinned_peers f @ include_peers f\<rparr>)
                 (exclude_peers f)))) = Inr final"
    and row: "row = make_row f
       (map2 name_of_result (pinned_peers f) (fst (gather c (pinned_peers f))))
       final
       (map2 name_of_result (exclude_peers f)
          (fst (gather (c\<lparr>requests := requests c @ pinned_peers f @ include_peers f\<rparr>)
                 (exclude_peers f))))"
    by (rule process_folder_Inr)
  from row have inc: "included_chats row = final" by (simp add: make_row_def)
  from fin have d: "distinct final" by (rule final_included_distinct)
  from fin have "(\<exists>strs. final = map Some strs \<and> sorted strs) \<or> final = [None]"
    by (rule final_included_shape)
  with d have "(\<exists>strs. final = map Some strs \<and> sorted strs \<and> distinct strs) \<or> final = [None]"
    by (auto simp: distinct_map)
  with d inc show ?thesis by simp
qed

text \<open>
  With a second group named ''Team Alpha'' and a second one named ''Team Beta''.
\<close>

theorem final_included_sorted_distinct_witness:
  "\<exists>row c'. process_folder directory_client
       (sample_dialogs @ [plain_dialog\<lparr>dialog_id := 101, name := ''Team Beta'', is_group := True\<rparr>,
                          plain_dialog\<lparr>dialog_id := 102, is_group := True\<rparr>])
       sample_folder = (Inr row, c')
     \<and> included_chats row
         = [Some ''Team Beta'', Some ''Unknown/Inaccessible Entity (ID: 9)'', Some ''User 8'']"
proof -
  let ?ds = "sample_dialogs @ [plain_dialog\<lparr>dialog_id := 101, name := ''Team Beta'', is_group := True\<rparr>,
                          plain_dialog\<lparr>dialog_id := 102, is_group := True\<rparr>]"
  have ev: "fst (process_folder directory_client ?ds sample_folder) =
     Inr (make_row sample_folder [Some ''News'', Some ''Ada'']
            [Some ''Team Beta'', Some ''Unknown/Inaccessible Entity (ID: 9)'', Some ''User 8'']
            [Some ''Team Alpha'', Some ''Ada''])"
    by (simp add: sample_defs run_defs)
  then obtain row c' where run: "process_folder directory_client ?ds sample_folder = (Inr row, c')"
    by (metis fst_conv surj_pair)
  from final_included_sorted_distinct [OF run] have d: "distinct (included_chats row)"
    by (rule conjunct1)
  from run ev have "included_chats row
      = [Some ''Team Beta'', Some ''Unknown/Inaccessible Entity (ID: 9)'', Some ''User 8'']"
    by (simp add: make_row_def)
  with run d show ?thesis by blast
qed

text \<open>
  Claim C9. For every folder for which a record is produced, the pinned names and the
  excluded names of the record are the resolved names of the folder's pinned and
  excluded peers, slot by slot in the order of those peer lists (the i-th name is the
  name obtained for the i-th peer), and the eight rule flags of the record are those of
  the folder.
\<close>

theorem pinned_excluded_flags_frame:
  assumes "process_folder c ds f = (Inr row, c')"
  shows "length (pinned_chats row) = length (pinned_peers f)
     \<and> (\<forall>i<length (pinned_peers f). pinned_chats row ! i
           = name_of_result (pinned_peers f ! i)
               (answers c (length (requests c) + i) (pinned_peers f ! i)))
     \<and> length (excluded_chats row) = length (exclude_peers f)
     \<and> (\<forall>i<length (exclude_peers f). excluded_chats row ! i
           = name_of_result (exclude_peers f ! i)
               (answers c (length (requests c) + length (pinned_peers f)
                             + length (include_peers f) + i) (exclude_peers f ! i)))
     \<and> rule_contacts row = contacts f \<and> rule_non_contacts row = non_contacts f
     \<and> rule_groups row = groups f \<and> rule_channels row = broadcasts f
     \<and> rule_bots row = bots f \<and> rule_exclude_muted row = exclude_muted f
     \<and> rule_exclude_read row = exclude_read f
     \<and> rule_exclude_archived row = exclude_archived f"
proof -
  from assms obtain final where
    row: "row = make_row f
       (map2 name_of_result (pinned_peers f) (fst (gather c (pinned_peers f))))
       final
       (map2 name_of_result (exclude_peers f)
          (fst (gather (c\<lparr>requests := requests c @ pinned_peers f @ include_peers f\<rparr>)
                 (exclude_peers f))))"
    by (rule process_folder_Inr)
  show ?thesis
    unfolding row by (simp add: make_row_def gather_length gather_nth add.assoc)
qed

text \<open>
  The sample folder's record: the pinned names ''News'', ''Ada'' and the excluded names
  ''Team Alpha'', ''Ada'' stand in the order of their peers, not sorted.
\<close>

theorem pinned_excluded_flags_frame_witness:
  "fst (process_folder directory_client sample_dialogs sample_folder)
     = Inr \<lparr> folder_name = ''Work'', row_folder_id = 2, row_emoticon = ''None'',
         pinned_chats = [Some ''News'', Some ''Ada''],
         included_chats = [Some ''Team Beta'', Some ''Unknown/Inaccessible Entity (ID: 9)'',
                           Some ''User 8''],
         excluded_chats = [Some ''Team Alpha'', Some ''Ada''],
         rule_contacts = False, rule_non_contacts = False, rule_groups = True,
         rule_channels = False, rule_bots = False, rule_exclude_muted = False,
         rule_exclude_read = False, rule_exclude_archived = False \<rparr>
   \<and> pinned_peers sample_folder = [PeerChannel 3, PeerUser 7]
   \<and> exclude_peers sample_folder = [PeerChat 42, PeerUser 7]"
proof -
  obtain row c' where run: "process_folder directory_client sample_dialogs sample_folder = (Inr row, c')"
    using sample_run by (metis fst_conv surj_pair)
  from pinned_excluded_flags_frame [OF run]
  have "rule_groups row = groups sample_folder"
    by simp
  with run sample_run show ?thesis
    by (simp add: make_row_def sample_folder_def plain_folder_def emoticon_or_none_def)
qed

section \<open>The claims about the dialog classifier\<close>

text \<open>
  Claim C3. For every dialog the classifier returns the name of exactly one of the five
  categories Personal, Group, Channel, Bot, Unknown (five different strings), the one the
  strict precedence order of the specification finds: Group if is-group, else Channel if
  is-channel, else for a user Bot when the bot attribute is true and Personal otherwise,
  else Unknown. A dialog flagged both group and channel classifies as Group.
\<close>

theorem classifier_total_precedence:
  "get_chat_type_string d = chat_type_name (classify_spec d)
   \<and> distinct (map chat_type_name [Personal, Group, Channel, Bot, Unknown])
   \<and> get_chat_type_string (d\<lparr>is_group := True, is_channel := True\<rparr>) = ''Group''"
  by (cases "bot_attr (entity d)")
     (auto simp: get_chat_type_string_def classify_spec_def getattr_def)

text \<open>
  One dialog of each category.
\<close>

theorem classifier_total_precedence_witness:
  "get_chat_type_string (plain_dialog\<lparr>is_group := True, is_channel := True\<rparr>) = ''Group''
   \<and> get_chat_type_string (plain_dialog\<lparr>is_channel := True\<rparr>) = ''Channel''
   \<and> get_chat_type_string
        (plain_dialog\<lparr>is_user := True, entity := bare_entity\<lparr>bot_attr := Some True\<rparr>\<rparr>) = ''Bot''
   \<and> get_chat_type_string (plain_dialog\<lparr>is_user := True\<rparr>) = ''Personal''
   \<and> get_chat_type_string plain_dialog = ''Unknown''"
  using classifier_total_precedence [of plain_dialog]
    classifier_total_precedence [of "plain_dialog\<lparr>is_channel := True\<rparr>"]
    classifier_total_precedence
      [of "plain_dialog\<lparr>is_user := True, entity := bare_entity\<lparr>bot_attr := Some True\<rparr>\<rparr>"]
    classifier_total_precedence [of "plain_dialog\<lparr>is_user := True\<rparr>"]
  by (simp add: classify_spec_def plain_dialog_def bare_entity_def)

section \<open>The claims about the folder rule matcher\<close>

text \<open>
  Claim C2. The claim says that a dialog for which an exclusion toggle fires is skipped.
  The code reads \<^verbatim>\<open>dialog.muted\<close> and \<^verbatim>\<open>dialog.unread_mark\<close> by plain access, and a dialog
  that has no such attribute makes the read raise \<^verbatim>\<open>AttributeError\<close>: under
  \<open>exclude_muted\<close> for every such dialog, under \<open>exclude_read\<close> for every such dialog whose
  unread count is 0. The dialogs of \<^verbatim>\<open>client.get_dialogs()\<close> have neither attribute
  (\<open>plain_dialog\<close> is one), so with a group under \<open>exclude_muted\<close> and \<open>groups\<close> the matcher
  raises instead of skipping, and no record is built for the folder. Only the
  \<open>exclude_archived\<close> toggle skips as the claim says.
\<close>

theorem exclusion_toggle_raises:
  "rule_exclusion (f\<lparr>exclude_muted := True\<rparr>) (d\<lparr>muted := None\<rparr>) = Inl AttributeError
   \<and> rule_exclusion (f\<lparr>exclude_muted := False, exclude_read := True\<rparr>)
        (d\<lparr>unread_count := 0, unread_mark := None\<rparr>) = Inl AttributeError
   \<and> muted plain_dialog = None \<and> unread_mark plain_dialog = None
   \<and> get_rule_based_chat_names (plain_folder\<lparr>exclude_muted := True, groups := True\<rparr>)
        [plain_dialog\<lparr>is_group := True\<rparr>] = Inl AttributeError
   \<and> get_rule_based_chat_names (plain_folder\<lparr>exclude_read := True, groups := True\<rparr>)
        [plain_dialog\<lparr>is_group := True, unread_count := 0\<rparr>] = Inl AttributeError
   \<and> fst (process_folder directory_client [plain_dialog\<lparr>is_group := True\<rparr>]
            (plain_folder\<lparr>exclude_muted := True, groups := True\<rparr>)) = Inl AttributeError
   \<and> get_rule_based_chat_names (plain_folder\<lparr>exclude_archived := True, groups := True\<rparr>)
        [plain_dialog\<lparr>is_group := True, archived := True\<rparr>,
         plain_dialog\<lparr>name := ''Team Beta'', is_group := True\<rparr>] = Inr [''Team Beta'']"
proof -
  have a: "rule_exclusion (f\<lparr>exclude_muted := True\<rparr>) (d\<lparr>muted := None\<rparr>) = Inl AttributeError"
    by (simp add: rule_exclusion_def)
  have b: "rule_exclusion (f\<lparr>exclude_muted := False, exclude_read := True\<rparr>)
        (d\<lparr>unread_count := 0, unread_mark := None\<rparr>) = Inl AttributeError"
    by (simp add: rule_exclusion_def)
  have c: "muted plain_dialog = None \<and> unread_mark plain_dialog = None"
    by (simp add: plain_dialog_def)
  have d: "get_rule_based_chat_names (plain_folder\<lparr>exclude_muted := True, groups := True\<rparr>)
        [plain_dialog\<lparr>is_group := True\<rparr>] = Inl AttributeError"
    by (simp add: sample_defs run_defs)
  have e: "get_rule_based_chat_names (plain_folder\<lparr>exclude_read := True, groups := True\<rparr>)
        [plain_dialog\<lparr>is_group := True, unread_count := 0\<rparr>] = Inl AttributeError"
    by (simp add: sample_defs run_defs)
  have g: "fst (process_folder directory_client [plain_dialog\<lparr>is_group := True\<rparr>]
            (plain_folder\<lparr>exclude_muted := True, groups := True\<rparr>)) = Inl AttributeError"
    by (simp add: sample_defs run_defs)
  have h: "get_rule_based_chat_names (plain_folder\<lparr>exclude_archived := True, groups := True\<rparr>)
        [plain_dialog\<lparr>is_group := True, archived := True\<rparr>,
         plain_dialog\<lparr>name := ''Team Beta'', is_group := True\<rparr>] = Inr [''Team Beta'']"
    by (simp add: sample_defs run_defs)
  from a b c d e g h show ?thesis by blast
qed

text \<open>
  Claim C7, as stated, fails: the matcher returns a list, and two different dialogs of the
  same name that both match leave the name in it twice.
\<close>

theorem matcher_set_semantics_counterexample:
  "dialog_id plain_dialog \<noteq> dialog_id (plain_dialog\<lparr>dialog_id := 101\<rparr>)
   \<and> get_rule_based_chat_names (plain_folder\<lparr>groups := True\<rparr>)
        [plain_dialog\<lparr>is_group := True\<rparr>, plain_dialog\<lparr>dialog_id := 101, is_group := True\<rparr>]
       = Inr [''Team Alpha'', ''Team Alpha'']"
  by (simp add: sample_defs run_defs)

text \<open>
  Claim C7, amended. Whenever the matcher returns a result (it does at least for every
  folder with neither \<open>exclude_muted\<close> nor \<open>exclude_read\<close> set), the result is a list in
  dialog order: each dialog that is not skipped and satisfies any inclusion rule
  contributes its name exactly once, however many rules it satisfies, so a name occurs as
  many times as there are matching dialogs of that name. The duplicates collapse in the
  membership resolver: in a record it produces, a name occurs at most once in the
  included list.
\<close>

theorem matcher_list_semantics:
  "(get_rule_based_chat_names f ds = Inr names \<longrightarrow>
        names = map name (filter (rule_match f) ds)
      \<and> count_list names n = length (filter (\<lambda>d. rule_match f d \<and> name d = n) ds))
   \<and> (process_folder c ds f = (Inr row, c') \<longrightarrow> count_list (included_chats row) (Some n) \<le> 1)
   \<and> (\<not> exclude_muted f \<and> \<not> exclude_read f
        \<longrightarrow> (\<exists>names. get_rule_based_chat_names f ds = Inr names))"
proof -
  have dc: "distinct xs \<Longrightarrow> count_list xs x \<le> 1" for xs :: "py_name list" and x
    by (induction xs) (auto simp: count_list_0_iff)
  have a: "names = map name (filter (rule_match f) ds)
      \<and> count_list names n = length (filter (\<lambda>d. rule_match f d \<and> name d = n) ds)"
    if "get_rule_based_chat_names f ds = Inr names"
    using rule_names_Inr [OF that] by (simp add: count_list_map_filter)
  have b: "count_list (included_chats row) (Some n) \<le> 1"
    if run: "process_folder c ds f = (Inr row, c')"
  proof -
    from run obtain rule_based final where
      fin: "final_included_names
       (combined_included_set
          (map2 name_of_result (include_peers f)
             (fst (gather (c\<lparr>requests := requests c @ pinned_peers f\<rparr>) (include_peers f))))
          rule_based)
       (map2 name_of_result (exclude_peers f)
          (fst (gather (c\<lparr>requests := requests c @ pinned_peers f @ include_peers f\<rparr>)
                 (exclude_peers f)))) = Inr final"
      and row: "row = make_row f
       (map2 name_of_result (pinned_peers f) (fst (gather c (pinned_peers f))))
       final
       (map2 name_of_result (exclude_peers f)
          (fst (gather (c\<lparr>requests := requests c @ pinned_peers f @ include_peers f\<rparr>)
                 (exclude_peers f))))"
      by (rule process_folder_Inr)
    from fin have "distinct final" by (rule final_included_distinct)
    then have "count_list final (Some n) \<le> 1" by (rule dc)
    with row show ?thesis by (simp add: make_row_def)
  qed
  have c: "\<exists>names. get_rule_based_chat_names f ds = Inr names"
    if "\<not> exclude_muted f \<and> \<not> exclude_read f"
    using that by (simp add: rule_names_toggles_off)
  from a b c show ?thesis by blast
qed

text \<open>
  A dialog that satisfies two rules (group and channel) and a second group of the same
  name: two entries in the matcher's list, one in the record.
\<close>

theorem matcher_list_semantics_witness:
  "get_rule_based_chat_names
     (plain_folder\<lparr>groups := True, broadcasts := True\<rparr>)
     [plain_dialog\<lparr>is_group := True, is_channel := True\<rparr>,
      plain_dialog\<lparr>dialog_id := 101, is_group := True\<rparr>] = Inr [''Team Alpha'', ''Team Alpha'']
   \<and> fst (process_folder failing_client
         [plain_dialog\<lparr>is_group := True, is_channel := True\<rparr>,
          plain_dialog\<lparr>dialog_id := 101, is_group := True\<rparr>]
         (plain_folder\<lparr>groups := True, broadcasts := True\<rparr>))
       = Inr (make_row (plain_folder\<lparr>groups := True, broadcasts := True\<rparr>) []
                [Some ''Team Alpha''] [])"
proof -
  let ?f = "plain_folder\<lparr>groups := True, broadcasts := True\<rparr>"
  let ?ds = "[plain_dialog\<lparr>is_group := True, is_channel := True\<rparr>,
      plain_dialog\<lparr>dialog_id := 101, is_group := True\<rparr>]"
  have off: "\<not> exclude_muted ?f \<and> \<not> exclude_read ?f"
    by (simp add: plain_folder_def)
  with matcher_list_semantics [of ?f ?ds _ "''Team Alpha''" failing_client]
  obtain names where ret: "get_rule_based_chat_names ?f ?ds = Inr names"
    by blast
  with matcher_list_semantics [of ?f ?ds names "''Team Alpha''" failing_client]
  have "names = map name (filter (rule_match ?f) ?ds)"
    by blast
  also have "\<dots> = [''Team Alpha'', ''Team Alpha'']"
    by (simp add: rule_match_def sample_defs run_defs)
  finally have a: "get_rule_based_chat_names ?f ?ds = Inr [''Team Alpha'', ''Team Alpha'']"
    using ret by simp
  have b: "fst (process_folder failing_client ?ds ?f)
             = Inr (make_row ?f [] [Some ''Team Alpha''] [])"
    by (simp add: sample_defs run_defs)
  from a b show ?thesis by (rule conjI)
qed

text \<open>
  Claim C10, as stated, fails where a dialog of unknown type shares its name with a
  dialog that matches: under the groups rule, the name of the unknown dialog is in the
  matcher's result, on account of the group of the same name.
\<close>

theorem unknown_dialog_counterexample:
  "\<not> is_group (plain_dialog\<lparr>dialog_id := 102\<rparr>)
   \<and> \<not> is_channel (plain_dialog\<lparr>dialog_id := 102\<rparr>)
   \<and> \<not> is_user (plain_dialog\<lparr>dialog_id := 102\<rparr>)
   \<and> contact (entity (plain_dialog\<lparr>dialog_id := 102\<rparr>)) = None
   \<and> bot_attr (entity (plain_dialog\<lparr>dialog_id := 102\<rparr>)) = None
   \<and> get_rule_based_chat_names (plain_folder\<lparr>groups := True\<rparr>)
        [plain_dialog\<lparr>dialog_id := 102\<rparr>, plain_dialog\<lparr>is_group := True\<rparr>]
       = Inr [name (plain_dialog\<lparr>dialog_id := 102\<rparr>)]"
  by (simp add: sample_defs run_defs)

text \<open>
  Claim C10, amended. For every folder, whatever its flags, and every dialog that is no
  group, no channel and no user and whose entity has no true contact or bot attribute,
  the inclusion condition is false. So whenever the matcher returns a result, it has
  added nothing for that dialog: the result is also the result for the list without the
  dialog, and the dialog's name is in it exactly when another dialog of the same name
  matches. And when the name of such a dialog is in the included list of a record, it is
  among the explicitly included resolved names or another dialog of the same name
  matches.
\<close>

theorem unknown_dialog_not_matched:
  assumes "\<not> is_group d" and "\<not> is_channel d" and "\<not> is_user d"
    and "contact (entity d) \<noteq> Some True" and "bot_attr (entity d) \<noteq> Some True"
  shows "\<not> rule_inclusion f d
     \<and> (get_rule_based_chat_names f (xs @ d # ys) = Inr names \<longrightarrow>
          get_rule_based_chat_names f (xs @ ys) = Inr names
          \<and> (name d \<in> set names
               \<longleftrightarrow> (\<exists>d'\<in>set (xs @ ys). name d' = name d \<and> rule_match f d')))
     \<and> (process_folder c (xs @ d # ys) f = (Inr row, c')
          \<and> Some (name d) \<in> set (included_chats row) \<longrightarrow>
          (\<exists>incl c2. get_names_for_peers (c\<lparr>requests := requests c @ pinned_peers f\<rparr>)
                        (include_peers f) = (Inr incl, c2)
                    \<and> Some (name d) \<in> set incl)
          \<or> (\<exists>d'\<in>set (xs @ ys). name d' = name d \<and> rule_match f d'))"
proof -
  from assms have ni: "\<not> rule_inclusion f d"
    by (cases "contact (entity d)"; cases "bot_attr (entity d)")
       (simp_all add: rule_inclusion_def getattr_def)
  then have nm: "\<not> rule_match f d" by (simp add: rule_match_def)
  have mem: "n \<in> set rb \<longleftrightarrow> (\<exists>d'\<in>set (xs @ ys). name d' = n \<and> rule_match f d')"
    if "get_rule_based_chat_names f (xs @ d # ys) = Inr rb" for rb n
    using rule_names_mem [OF that, of n] nm by auto
  have a: "get_rule_based_chat_names f (xs @ ys) = Inr names
          \<and> (name d \<in> set names
               \<longleftrightarrow> (\<exists>d'\<in>set (xs @ ys). name d' = name d \<and> rule_match f d'))"
    if ret: "get_rule_based_chat_names f (xs @ d # ys) = Inr names"
    using rule_names_skip [OF nm ret] mem [OF ret] by simp
  have b: "(\<exists>incl c2. get_names_for_peers (c\<lparr>requests := requests c @ pinned_peers f\<rparr>)
                        (include_peers f) = (Inr incl, c2)
                    \<and> Some (name d) \<in> set incl)
          \<or> (\<exists>d'\<in>set (xs @ ys). name d' = name d \<and> rule_match f d')"
    if run: "process_folder c (xs @ d # ys) f = (Inr row, c')"
      and inc: "Some (name d) \<in> set (included_chats row)"
  proof -
    let ?incl = "map2 name_of_result (include_peers f)
             (fst (gather (c\<lparr>requests := requests c @ pinned_peers f\<rparr>) (include_peers f)))"
    from run obtain rule_based final where
      rb: "get_rule_based_chat_names f (xs @ d # ys) = Inr rule_based"
      and fin: "final_included_names (combined_included_set ?incl rule_based)
       (map2 name_of_result (exclude_peers f)
          (fst (gather (c\<lparr>requests := requests c @ pinned_peers f @ include_peers f\<rparr>)
                 (exclude_peers f)))) = Inr final"
      and row: "row = make_row f
       (map2 name_of_result (pinned_peers f) (fst (gather c (pinned_peers f))))
       final
       (map2 name_of_result (exclude_peers f)
          (fst (gather (c\<lparr>requests := requests c @ pinned_peers f @ include_peers f\<rparr>)
                 (exclude_peers f))))"
      by (rule process_folder_Inr)
    from row inc have "Some (name d) \<in> set final" by (simp add: make_row_def)
    with final_included_set_eq [OF fin]
    have "Some (name d) \<in> set ?incl \<or> name d \<in> set rule_based" by auto
    then show ?thesis
    proof
      assume "Some (name d) \<in> set ?incl"
      then show ?thesis by (simp add: get_names_for_peers_eq)
    next
      assume "name d \<in> set rule_based"
      with mem [OF rb] show ?thesis by simp
    qed
  qed
  from ni a b show ?thesis by blast
qed

text \<open>
  An unknown dialog named ''Ada'' before a channel, under a folder with all five inclusion
  rules that explicitly includes the user Ada.
\<close>

theorem unknown_dialog_not_matched_witness:
  "\<not> is_group (plain_dialog\<lparr>name := ''Ada''\<rparr>) \<and> \<not> is_channel (plain_dialog\<lparr>name := ''Ada''\<rparr>)
   \<and> \<not> is_user (plain_dialog\<lparr>name := ''Ada''\<rparr>)
   \<and> contact (entity (plain_dialog\<lparr>name := ''Ada''\<rparr>)) \<noteq> Some True
   \<and> bot_attr (entity (plain_dialog\<lparr>name := ''Ada''\<rparr>)) \<noteq> Some True
   \<and> get_rule_based_chat_names
        (plain_folder\<lparr>contacts := True, non_contacts := True, groups := True,
           broadcasts := True, bots := True, include_peers := [PeerUser 7]\<rparr>)
        [plain_dialog\<lparr>name := ''Ada''\<rparr>, plain_dialog\<lparr>name := ''News'', is_channel := True\<rparr>]
       = Inr [''News'']
   \<and> fst (process_folder directory_client
        [plain_dialog\<lparr>name := ''Ada''\<rparr>, plain_dialog\<lparr>name := ''News'', is_channel := True\<rparr>]
        (plain_folder\<lparr>contacts := True, non_contacts := True, groups := True,
           broadcasts := True, bots := True, include_peers := [PeerUser 7]\<rparr>))
       = Inr (make_row (plain_folder\<lparr>contacts := True, non_contacts := True, groups := True,
           broadcasts := True, bots := True, include_peers := [PeerUser 7]\<rparr>) []
           [Some ''Ada'', Some ''News''] [])
   \<and> fst (get_names_for_peers directory_client [PeerUser 7]) = Inr [Some ''Ada'']"
proof -
  let ?d = "plain_dialog\<lparr>name := ''Ada''\<rparr>"
  let ?f = "plain_folder\<lparr>contacts := True, non_contacts := True, groups := True,
           broadcasts := True, bots := True, include_peers := [PeerUser 7]\<rparr>"
  let ?ys = "[plain_dialog\<lparr>name := ''News'', is_channel := True\<rparr>]"
  have h: "\<not> is_group ?d" "\<not> is_channel ?d" "\<not> is_user ?d"
    "contact (entity ?d) \<noteq> Some True" "bot_attr (entity ?d) \<noteq> Some True"
    by (simp_all add: plain_dialog_def bare_entity_def)
  have ret: "get_rule_based_chat_names ?f ([] @ ?d # ?ys) = Inr [''News'']"
    by (simp add: sample_defs run_defs)
  from unknown_dialog_not_matched [OF h, of ?f "[]" ?ys "[''News'']"] ret
  have "get_rule_based_chat_names ?f ([] @ ?ys) = Inr [''News'']"
    by blast
  moreover have "fst (process_folder directory_client (?d # ?ys) ?f)
       = Inr (make_row ?f [] [Some ''Ada'', Some ''News''] [])"
    by (simp add: sample_defs run_defs)
  moreover have "fst (get_names_for_peers directory_client [PeerUser 7]) = Inr [Some ''Ada'']"
    by (simp add: sample_defs run_defs)
  ultimately show ?thesis
    using h ret by simp
qed

section \<open>The claims about the peer name resolver\<close>

text \<open>
  Claim C4. For every sequence of peers and every client, whichever requests fail, the
  resolver returns (it never raises) a list of names of the same length, whose i-th
  element is the name obtained for the i-th peer from the outcome of that peer's
  request. On the empty sequence it returns the empty list and leaves the client as it
  was: no request is issued. When every request fails, every element is the placeholder
  of its peer, and no placeholder is empty.
\<close>

theorem resolver_alignment:
  "\<exists>names. get_names_for_peers c peers = (Inr names, c\<lparr>requests := requests c @ peers\<rparr>)
     \<and> length names = length peers
     \<and> (\<forall>i<length peers. names ! i
           = name_of_result (peers ! i) (answers c (length (requests c) + i) (peers ! i)))
     \<and> get_names_for_peers c [] = (Inr [], c)
     \<and> ((\<forall>i<length peers. isl (answers c (length (requests c) + i) (peers ! i)))
          \<longrightarrow> (\<forall>i<length peers. names ! i = Some (placeholder (peers ! i))
                  \<and> placeholder (peers ! i) \<noteq> []))"
proof -
  let ?names = "map2 name_of_result peers (fst (gather c peers))"
  have run: "get_names_for_peers c peers = (Inr ?names, c\<lparr>requests := requests c @ peers\<rparr>)"
    by (rule get_names_for_peers_eq)
  have len: "length ?names = length peers"
    by (simp add: gather_length)
  have nth: "\<forall>i<length peers. ?names ! i
           = name_of_result (peers ! i) (answers c (length (requests c) + i) (peers ! i))"
    by (simp add: resolved_nth)
  have empty: "get_names_for_peers c [] = (Inr [], c)"
    by (simp add: get_names_for_peers_def)
  have fail: "\<forall>i<length peers. ?names ! i = Some (placeholder (peers ! i))
                  \<and> placeholder (peers ! i) \<noteq> []"
    if "\<forall>i<length peers. isl (answers c (length (requests c) + i) (peers ! i))"
  proof (intro allI impI)
    fix i assume i: "i < length peers"
    with that have "isl (answers c (length (requests c) + i) (peers ! i))" by simp
    then have "name_of_result (peers ! i) (answers c (length (requests c) + i) (peers ! i))
                 = Some (placeholder (peers ! i))"
      by (cases "answers c (length (requests c) + i) (peers ! i)")
         (simp_all add: name_of_result_def)
    with nth i show "?names ! i = Some (placeholder (peers ! i)) \<and> placeholder (peers ! i) \<noteq> []"
      by (simp add: placeholder_nonempty)
  qed
  from run len nth empty fail show ?thesis by blast
qed

text \<open>
  Three peers, every request failing: three placeholders, in the order of the peers. And
  three peers of which the second fails: its slot alone holds a placeholder.
\<close>

theorem resolver_alignment_witness:
  "fst (get_names_for_peers failing_client [PeerUser 7, PeerChat 42, PeerChannel 3])
     = Inr [Some ''Unknown/Inaccessible Entity (ID: 7)'',
            Some ''Unknown/Inaccessible Entity (ID: N/A)'',
            Some ''Unknown/Inaccessible Entity (ID: 3)'']
   \<and> requests (snd (get_names_for_peers failing_client [PeerUser 7, PeerChat 42, PeerChannel 3]))
       = [PeerUser 7, PeerChat 42, PeerChannel 3]
   \<and> get_names_for_peers failing_client [] = (Inr [], failing_client)
   \<and> fst (get_names_for_peers directory_client [PeerChannel 3, PeerUser 1207, PeerUser 7])
       = Inr [Some ''News'', Some ''Unknown/Inaccessible Entity (ID: 1207)'', Some ''Ada'']"
proof -
  let ?ps = "[PeerUser 7, PeerChat 42, PeerChannel 3]"
  let ?qs = "[PeerChannel 3, PeerUser 1207, PeerUser 7]"
  have hyp: "\<forall>i<length ?ps.
      isl (answers failing_client (length (requests failing_client) + i) (?ps ! i))"
    by (simp add: failing_client_def)
  from resolver_alignment [of failing_client ?ps] hyp
  obtain names where
    run: "get_names_for_peers failing_client ?ps
            = (Inr names, failing_client\<lparr>requests := requests failing_client @ ?ps\<rparr>)"
    and len: "length names = length ?ps"
    and ph: "\<forall>i<length ?ps. names ! i = Some (placeholder (?ps ! i)) \<and> placeholder (?ps ! i) \<noteq> []"
    and empty: "get_names_for_peers failing_client [] = (Inr [], failing_client)"
    by blast
  from ph have "names ! 0 = Some (placeholder (PeerUser 7))"
    "names ! 1 = Some (placeholder (PeerChat 42))"
    "names ! 2 = Some (placeholder (PeerChannel 3))"
    by simp_all
  with len have "names = [Some (placeholder (PeerUser 7)), Some (placeholder (PeerChat 42)),
      Some (placeholder (PeerChannel 3))]"
    by (simp add: list_eq_iff_nth_eq less_Suc_eq numeral_3_eq_3 numeral_2_eq_2)
  with run empty have a: "fst (get_names_for_peers failing_client ?ps)
     = Inr [Some ''Unknown/Inaccessible Entity (ID: 7)'',
            Some ''Unknown/Inaccessible Entity (ID: N/A)'',
            Some ''Unknown/Inaccessible Entity (ID: 3)'']
   \<and> requests (snd (get_names_for_peers failing_client ?ps)) = ?ps
   \<and> get_names_for_peers failing_client [] = (Inr [], failing_client)"
    by (simp add: failing_client_def placeholder_def peer_id_def getattr_def str_int_def
        str_nat.simps digit_char_def)
  from resolver_alignment [of directory_client ?qs]
  obtain names' where
    run': "get_names_for_peers directory_client ?qs
            = (Inr names', directory_client\<lparr>requests := requests directory_client @ ?qs\<rparr>)"
    and len': "length names' = length ?qs"
    and nth': "\<forall>i<length ?qs. names' ! i = name_of_result (?qs ! i)
         (answers directory_client (length (requests directory_client) + i) (?qs ! i))"
    by blast
  from nth' have "names' ! 0 = Some ''News''"
    "names' ! 1 = Some ''Unknown/Inaccessible Entity (ID: 1207)''"
    "names' ! 2 = Some ''Ada''"
    by (simp_all add: sample_defs run_defs name_of_result_def)
  with len' have "names' = [Some ''News'', Some ''Unknown/Inaccessible Entity (ID: 1207)'',
      Some ''Ada'']"
    by (simp add: list_eq_iff_nth_eq less_Suc_eq numeral_3_eq_3 numeral_2_eq_2)
  with run' have b: "fst (get_names_for_peers directory_client ?qs)
       = Inr [Some ''News'', Some ''Unknown/Inaccessible Entity (ID: 1207)'', Some ''Ada'']"
    by simp
  from a b show ?thesis by simp
qed

text \<open>
  Claim C5. The batch does not fail and the other slots are unaffected (see C4), and the
  placeholder of a channel peer or of a user peer embeds the peer's identifier. The
  placeholder of a chat peer does not: the loop looks for \<^verbatim>\<open>channel_id\<close> and
  \<^verbatim>\<open>user_id\<close> only, a chat peer carries \<^verbatim>\<open>chat_id\<close>, and the text
  \<^verbatim>\<open>N/A\<close> stands where the identifier should. Every chat peer gets the same
  placeholder, whatever its identifier.
\<close>

theorem chat_peer_placeholder:
  "placeholder (PeerChannel i) = ''Unknown/Inaccessible Entity (ID: '' @ str_int i @ '')''
   \<and> placeholder (PeerUser i) = ''Unknown/Inaccessible Entity (ID: '' @ str_int i @ '')''
   \<and> chat_id (PeerChat i) = Some i
   \<and> placeholder (PeerChat i) = ''Unknown/Inaccessible Entity (ID: N/A)''
   \<and> fst (get_names_for_peers failing_client [PeerChannel 42, PeerChat 42, PeerUser 42])
       = Inr [Some ''Unknown/Inaccessible Entity (ID: 42)'',
              Some ''Unknown/Inaccessible Entity (ID: N/A)'',
              Some ''Unknown/Inaccessible Entity (ID: 42)'']"
proof -
  have "fst (get_names_for_peers failing_client [PeerChannel 42, PeerChat 42, PeerUser 42])
       = Inr [Some ''Unknown/Inaccessible Entity (ID: 42)'',
              Some ''Unknown/Inaccessible Entity (ID: N/A)'',
              Some ''Unknown/Inaccessible Entity (ID: 42)'']"
    by (simp add: sample_defs run_defs)
  then show ?thesis
    by (simp add: placeholder_def peer_id_def getattr_def)
qed

text \<open>
  Claim C8. The claim gives the name of a resolved entity as its title if present, else
  its first name if present, else the text \<^verbatim>\<open>User\<close> followed by the identifier. The code
  takes the fall-back only when the attribute is absent: an entity without a title whose
  first-name attribute holds \<^verbatim>\<open>None\<close> (a deleted account) gets the name \<^verbatim>\<open>None\<close>, not
  the text with its identifier. Where every attribute that is there holds a text, the
  priority order is the claim's.
\<close>

theorem first_name_none_no_fallback:
  "entity_name (e\<lparr>title := Some v\<rparr>) = v
   \<and> entity_name (e\<lparr>title := None, first_name := Some v\<rparr>) = v
   \<and> entity_name (e\<lparr>title := None, first_name := None\<rparr>) = Some (''User '' @ str_int (ent_id e))
   \<and> entity_name (e\<lparr>title := None, first_name := Some None\<rparr>) = None
   \<and> entity_name (bare_entity\<lparr>ent_id := 1207, first_name := Some None\<rparr>) = None
   \<and> entity_name (bare_entity\<lparr>ent_id := 1207\<rparr>) = Some ''User 1207''
   \<and> fst (get_names_for_peers directory_client [PeerChannel 3, PeerUser 6, PeerUser 8])
       = Inr [Some ''News'', None, Some ''User 8'']"
proof -
  have a: "entity_name (e\<lparr>title := Some v\<rparr>) = v
   \<and> entity_name (e\<lparr>title := None, first_name := Some v\<rparr>) = v
   \<and> entity_name (e\<lparr>title := None, first_name := None\<rparr>) = Some (''User '' @ str_int (ent_id e))
   \<and> entity_name (e\<lparr>title := None, first_name := Some None\<rparr>) = None"
    by (simp add: entity_name_def getattr_def)
  have b: "entity_name (bare_entity\<lparr>ent_id := 1207, first_name := Some None\<rparr>) = None
   \<and> entity_name (bare_entity\<lparr>ent_id := 1207\<rparr>) = Some ''User 1207''"
    by (simp add: sample_defs run_defs)
  have c: "fst (get_names_for_peers directory_client [PeerChannel 3, PeerUser 6, PeerUser 8])
       = Inr [Some ''News'', None, Some ''User 8'']"
    by (simp add: sample_defs run_defs)
  from a b c show ?thesis by blast
qed

end
